theory Spec2Isabelle
  imports Main "HOL-Library.Sublist" "HOL-Library.Multiset"
begin

section \<open>Python strings\<close>

text \<open>
  A Python \<^verbatim>\<open>str\<close> is a sequence of Unicode code points; \<^verbatim>\<open>len\<close>, slicing,
  \<^verbatim>\<open>startswith\<close>, \<^verbatim>\<open>strip\<close> and \<^verbatim>\<open>splitlines\<close> all work on code points. A character
  is therefore modelled by its code point and a string by the list of them. \<open>str\<close> turns
  an ASCII literal into such a list.
\<close>

type_synonym pychar = nat
type_synonym pystr = "pychar list"

abbreviation str :: "string \<Rightarrow> pystr" where
  "str s \<equiv> map of_char s"

abbreviation (input) LF :: pychar where "LF \<equiv> 10"
abbreviation (input) CR :: pychar where "CR \<equiv> 13"

text \<open>
  \<^verbatim>\<open>str.isspace\<close> for one character, which is what \<^verbatim>\<open>strip()\<close> without an argument
  removes: the code points whose Unicode bidirectional class is WS, B or S or whose
  category is Zs.
\<close>

definition is_space :: "pychar \<Rightarrow> bool" where
  "is_space c \<longleftrightarrow>
     (0x09 \<le> c \<and> c \<le> 0x0D) \<or> (0x1C \<le> c \<and> c \<le> 0x1F) \<or> c = 0x20 \<or> c = 0x85
     \<or> c = 0xA0 \<or> c = 0x1680 \<or> (0x2000 \<le> c \<and> c \<le> 0x200A) \<or> c = 0x2028
     \<or> c = 0x2029 \<or> c = 0x202F \<or> c = 0x205F \<or> c = 0x3000"

text \<open>The line boundaries of \<^verbatim>\<open>str.splitlines\<close>.\<close>

definition is_linebreak :: "pychar \<Rightarrow> bool" where
  "is_linebreak c \<longleftrightarrow>
     (0x0A \<le> c \<and> c \<le> 0x0D) \<or> (0x1C \<le> c \<and> c \<le> 0x1E) \<or> c = 0x85
     \<or> c = 0x2028 \<or> c = 0x2029"

text \<open>\<^verbatim>\<open>s.strip()\<close>: leading and trailing whitespace removed.\<close>

definition strip :: "pystr \<Rightarrow> pystr" where
  "strip s = rev (dropWhile is_space (rev (dropWhile is_space s)))"

text \<open>
  \<^verbatim>\<open>s.splitlines()\<close>: the scan of the string, with the line read so far as first
  argument. A line ends at a line boundary, \<^verbatim>\<open>\r\n\<close> counting as one boundary; the
  boundary is not part of the line; text after the last boundary is a line when it is
  not empty.
\<close>

fun splitlines_from :: "pystr \<Rightarrow> pystr \<Rightarrow> pystr list" where
  "splitlines_from line [] = (if line = [] then [] else [line])"
| "splitlines_from line (c # cs) =
     (if is_linebreak c then
        line # (case cs of
                  [] \<Rightarrow> splitlines_from [] cs
                | d # ds \<Rightarrow>
                    if c = CR \<and> d = LF then splitlines_from [] ds
                    else splitlines_from [] cs)
      else splitlines_from (line @ [c]) cs)"

definition splitlines :: "pystr \<Rightarrow> pystr list" where
  "splitlines s = splitlines_from [] s"

text \<open>\<^verbatim>\<open>s.startswith(p)\<close>: the first \<^verbatim>\<open>len(p)\<close> characters of \<^verbatim>\<open>s\<close> are \<^verbatim>\<open>p\<close>.\<close>

fun startswith :: "pystr \<Rightarrow> pystr \<Rightarrow> bool" where
  "startswith s [] = True"
| "startswith [] (p # ps) = False"
| "startswith (c # cs) (p # ps) = (c = p \<and> startswith cs ps)"

text \<open>\<^verbatim>\<open>s.endswith(p)\<close>.\<close>

definition endswith :: "pystr \<Rightarrow> pystr \<Rightarrow> bool" where
  "endswith s p = startswith (rev s) (rev p)"

text \<open>The decimal digits of a number, as an f-string prints an \<^verbatim>\<open>int\<close>.\<close>

fun digits :: "nat \<Rightarrow> pystr" where
  "digits n = (if n < 10 then [48 + n] else digits (n div 10) @ [48 + n mod 10])"

declare digits.simps [simp del]

definition str_of_int :: "int \<Rightarrow> pystr" where
  "str_of_int i = (if i < 0 then 45 # digits (nat (- i)) else digits (nat i))"

section \<open>extract_matching_cards\<close>

text \<open>
  \<^verbatim>\<open>return [card for card in card_numbers if card.startswith(prefix)]\<close>

  The body is one list comprehension. It has no \<^verbatim>\<open>raise\<close>, and \<^verbatim>\<open>str.startswith\<close>
  returns for every pair of strings, so a call on a list of strings and a string always
  returns a list: the model is a total function into lists.
\<close>

definition extract_matching_cards :: "pystr list \<Rightarrow> pystr \<Rightarrow> pystr list" where
  "extract_matching_cards card_numbers prefix' =
     [card' \<leftarrow> card_numbers. startswith card' prefix']"

section \<open>Files and read_card_numbers_from_file\<close>

text \<open>
  The exceptions the code tells apart: \<^verbatim>\<open>FileNotFoundError\<close>, which
  \<open>read_card_numbers_from_file\<close> catches; any other exception derived from
  \<^verbatim>\<open>Exception\<close>, which only the handler of \<open>handle_document\<close> catches; and an exception
  that is not derived from \<^verbatim>\<open>Exception\<close> (the cancellation of the task), which nothing
  in the code catches.
\<close>

datatype exn = FileNotFoundError | OtherException | CancelledError

text \<open>
  The file system gives, for every path, what opening the file and reading it in text
  mode does: it raises, or it yields the decoded characters stored in the file.
\<close>

type_synonym filesystem = "pystr \<Rightarrow> exn + pystr"

text \<open>
  Reading in text mode with the default \<^verbatim>\<open>newline=None\<close> translates \<^verbatim>\<open>\r\n\<close> and
  \<^verbatim>\<open>\r\<close> to \<^verbatim>\<open>\n\<close>.
\<close>

fun universal_newlines :: "pystr \<Rightarrow> pystr" where
  "universal_newlines [] = []"
| "universal_newlines (c # cs) =
     (if c = CR then
        LF # (case cs of
                [] \<Rightarrow> universal_newlines cs
              | d # ds \<Rightarrow> if d = LF then universal_newlines ds else universal_newlines cs)
      else c # universal_newlines cs)"

text \<open>
  Writing in text mode with the default \<^verbatim>\<open>newline=None\<close> translates every \<^verbatim>\<open>\n\<close>
  to the line separator of the platform, \<^verbatim>\<open>os.linesep\<close>.
\<close>

definition write_newlines :: "pystr \<Rightarrow> pystr \<Rightarrow> pystr" where
  "write_newlines linesep text = concat (map (\<lambda>c. if c = LF then linesep else [c]) text)"

text \<open>\<^verbatim>\<open>with open(file_path, 'r') as file: file.read()\<close>\<close>

definition read_text :: "filesystem \<Rightarrow> pystr \<Rightarrow> exn + pystr" where
  "read_text files file_path =
     (case files file_path of Inl e \<Rightarrow> Inl e | Inr raw \<Rightarrow> Inr (universal_newlines raw))"

text \<open>
  \<^verbatim>\<open>
  try:
      with open(file_path, 'r') as file:
          card_numbers = file.read().splitlines()
      return [card.strip() for card in card_numbers if card.strip()]
  except FileNotFoundError:
      return []
  \<close>
\<close>

definition read_card_numbers_from_file :: "filesystem \<Rightarrow> pystr \<Rightarrow> exn + pystr list" where
  "read_card_numbers_from_file files file_path =
     (case read_text files file_path of
        Inr text \<Rightarrow>
          (let card_numbers = splitlines text
           in Inr [strip card'. card' \<leftarrow> card_numbers, strip card' \<noteq> []])
      | Inl FileNotFoundError \<Rightarrow> Inr []
      | Inl e \<Rightarrow> Inl e)"

section \<open>The prefix statistics of stats_command\<close>

text \<open>
  A Python \<^verbatim>\<open>dict\<close> keeps its keys in insertion order and \<^verbatim>\<open>items()\<close> lists them in
  that order, so \<^verbatim>\<open>prefix_counts\<close> is an association list: a new key goes to the end,
  an assignment to an existing key keeps its place.
\<close>

fun dict_get :: "('k \<times> 'v) list \<Rightarrow> 'k \<Rightarrow> 'v \<Rightarrow> 'v" where
  "dict_get [] k d = d"
| "dict_get ((k', v) # kvs) k d = (if k' = k then v else dict_get kvs k d)"

fun dict_set :: "('k \<times> 'v) list \<Rightarrow> 'k \<Rightarrow> 'v \<Rightarrow> ('k \<times> 'v) list" where
  "dict_set [] k v = [(k, v)]"
| "dict_set ((k', v') # kvs) k v =
     (if k' = k then (k', v) # kvs else (k', v') # dict_set kvs k v)"

text \<open>
  \<^verbatim>\<open>
  for card in ...:
      if len(card) >= 4:
          prefix = card[:4]
          prefix_counts[prefix] = prefix_counts.get(prefix, 0) + 1
  \<close>
\<close>

fun count_prefixes :: "pystr list \<Rightarrow> (pystr \<times> int) list \<Rightarrow> (pystr \<times> int) list" where
  "count_prefixes [] prefix_counts = prefix_counts"
| "count_prefixes (card' # cards) prefix_counts =
     count_prefixes cards
       (if length card' \<ge> 4 then
          (let prefix' = take 4 card'
           in dict_set prefix_counts prefix' (dict_get prefix_counts prefix' 0 + 1))
        else prefix_counts)"

text \<open>\<^verbatim>\<open>prefix_counts = {}\<close> and the loop over \<^verbatim>\<open>card_numbers[:5000]\<close>.\<close>

definition prefix_counts :: "pystr list \<Rightarrow> (pystr \<times> int) list" where
  "prefix_counts card_numbers = count_prefixes (take 5000 card_numbers) []"

text \<open>
  \<^verbatim>\<open>sorted(items, key=lambda x: x[1], reverse=True)\<close>. Python's sort is stable, and
  with \<^verbatim>\<open>reverse=True\<close> it reverses the list, sorts it in ascending order of the key,
  and reverses the result, so that equal keys keep the order they had. The result of a
  stable sort is determined by the list and the key alone; \<open>sort_key\<close> is a stable sort.
\<close>

definition sorted_reverse :: "('k \<times> int) list \<Rightarrow> ('k \<times> int) list" where
  "sorted_reverse items = rev (sort_key snd (rev items))"

text \<open>\<^verbatim>\<open>top_prefixes = sorted(prefix_counts.items(), ...)[:10]\<close>\<close>

definition top_prefixes :: "pystr list \<Rightarrow> (pystr \<times> int) list" where
  "top_prefixes card_numbers = take 10 (sorted_reverse (prefix_counts card_numbers))"

section \<open>The bot: user_contexts, search_cards and handle_document\<close>

text \<open>
  \<^verbatim>\<open>user_contexts = {}\<close> maps a user id to the dictionary
  \<^verbatim>\<open>{'prefix': prefix, 'waiting_for_file': True}\<close> that \<open>search_cards\<close> stores.
\<close>

type_synonym user_id = int

record user_context =
  search_prefix :: pystr
  waiting_for_file :: bool

text \<open>The messages the handlers send, each with the values it shows.\<close>

datatype notice =
    UsagePrompt
  | AskUpload pystr
  | Processing
  | NotTxt
  | TooLarge
  | EmptyFile
  | NoCardsFound pystr nat
  | SearchResults pystr "exn + pystr" pystr nat nat
  | FileUploaded nat int
  | ErrorDetails exn
  | ProcessingDeleted

text \<open>
  The state the handlers work on: the global \<^verbatim>\<open>user_contexts\<close>, the files of the
  working directory, and the messages sent so far.
\<close>

record bot_state =
  user_contexts :: "user_id \<rightharpoonup> user_context"
  files :: filesystem
  sent :: "notice list"

text \<open>
  The uploaded document: \<^verbatim>\<open>file_name\<close> and \<^verbatim>\<open>file_size\<close> are optional fields of a
  Telegram document and are \<^verbatim>\<open>None\<close> when absent.
\<close>

record document =
  file_name :: "pystr option"
  file_size :: "int option"
  file_id :: pystr

text \<open>
  Every call of the Telegram library and every file operation of the handlers may raise.
  The places where that can happen are named, and the environment says which of them
  raise and what; it also holds the content that \<^verbatim>\<open>download_to_drive\<close> stores for a
  file id (as reading the stored file gives it) and \<^verbatim>\<open>os.linesep\<close>.
\<close>

datatype site =
    ReplyUsage | ReplyAskUpload
  | ReplyProcessing | EditNotTxt | EditTooLarge | GetFile | DownloadToDrive | EditEmpty
  | EditNoMatch | WriteResults | SendDocument | RemoveResults | RemoveTemp
  | DeleteProcessing | EditUploaded | RemoveTempUpload | EditError

record env =
  raises :: "site \<Rightarrow> exn option"
  downloaded :: "pystr \<Rightarrow> exn + pystr"
  linesep :: pystr

text \<open>
  The result of running statements: the exception that ended them, if one did, and the
  state reached.
\<close>

type_synonym outcome = "exn option \<times> bot_state"

definition call :: "env \<Rightarrow> site \<Rightarrow> (bot_state \<Rightarrow> bot_state) \<Rightarrow> bot_state \<Rightarrow> outcome" where
  "call e st effect s =
     (case raises e st of Some x \<Rightarrow> (Some x, s) | None \<Rightarrow> (None, effect s))"

definition andthen :: "outcome \<Rightarrow> (bot_state \<Rightarrow> outcome) \<Rightarrow> outcome" where
  "andthen r f = (case r of (None, s) \<Rightarrow> f s | (Some x, s) \<Rightarrow> (Some x, s))"

definition notify :: "notice \<Rightarrow> bot_state \<Rightarrow> bot_state" where
  "notify m s = s\<lparr>sent := sent s @ [m]\<rparr>"

definition store_file :: "pystr \<Rightarrow> exn + pystr \<Rightarrow> bot_state \<Rightarrow> bot_state" where
  "store_file path content s = s\<lparr>files := (files s)(path := content)\<rparr>"

text \<open>\<^verbatim>\<open>os.remove(path)\<close>\<close>

definition remove_file :: "pystr \<Rightarrow> bot_state \<Rightarrow> bot_state" where
  "remove_file path s = store_file path (Inl FileNotFoundError) s"

text \<open>\<^verbatim>\<open>del user_contexts[user_id]\<close>, for a \<^verbatim>\<open>user_id\<close> that is a key.\<close>

definition del_context :: "user_id \<Rightarrow> bot_state \<Rightarrow> bot_state" where
  "del_context uid s = s\<lparr>user_contexts := (user_contexts s)(uid := None)\<rparr>"

text \<open>
  \<^verbatim>\<open>
  if not context.args:
      await update.message.reply_text("... Please provide a prefix to search for. ...")
      return
  prefix = context.args[0]
  user_id = update.effective_user.id
  user_contexts[user_id] = {'prefix': prefix, 'waiting_for_file': True}
  await update.message.reply_text(...)
  \<close>
\<close>

definition search_cards :: "env \<Rightarrow> pystr list \<Rightarrow> user_id \<Rightarrow> bot_state \<Rightarrow> outcome" where
  "search_cards e args uid s =
     (case args of
        [] \<Rightarrow> call e ReplyUsage (notify UsagePrompt) s
      | prefix' # _ \<Rightarrow>
          call e ReplyAskUpload (notify (AskUpload prefix'))
            (s\<lparr>user_contexts := (user_contexts s)
                 (uid \<mapsto> \<lparr>search_prefix = prefix', waiting_for_file = True\<rparr>)\<rparr>))"

text \<open>
  What the loop \<^verbatim>\<open>for card in matching_cards: f.write(card + '\n')\<close> writes.
\<close>

definition results_text :: "pystr list \<Rightarrow> pystr" where
  "results_text matching_cards = concat (map (\<lambda>card'. card' @ [LF]) matching_cards)"

text \<open>
  \<^verbatim>\<open>with open(results_filename, 'w') as f: for card in matching_cards: f.write(card + '\n')\<close>
\<close>

definition write_results :: "pystr \<Rightarrow> pystr \<Rightarrow> pystr list \<Rightarrow> filesystem \<Rightarrow> filesystem" where
  "write_results sep results_filename matching_cards fs =
     fs(results_filename := Inr (write_newlines sep (results_text matching_cards)))"

text \<open>\<^verbatim>\<open>f'temp_cards_{user_id}.txt'\<close>\<close>

definition temp_cards_name :: "user_id \<Rightarrow> pystr" where
  "temp_cards_name uid = str ''temp_cards_'' @ str_of_int uid @ str ''.txt''"

text \<open>\<^verbatim>\<open>f'cards_{prefix}_{len(matching_cards)}_results.txt'\<close>\<close>

definition results_name :: "pystr \<Rightarrow> nat \<Rightarrow> pystr" where
  "results_name prefix' n = str ''cards_'' @ prefix' @ str ''_'' @ digits n @ str ''_results.txt''"

text \<open>
  The branch of \<open>handle_document\<close> for a user who is waiting for a file (lines 202 to
  245): filter, then either the no-match message or the results file.
\<close>

definition search_upload ::
  "env \<Rightarrow> user_id \<Rightarrow> pystr \<Rightarrow> pystr \<Rightarrow> pystr list \<Rightarrow> bot_state \<Rightarrow> outcome" where
  "search_upload e uid temp_file_path prefix' card_numbers s =
     (let matching_cards = extract_matching_cards card_numbers prefix' in
      if matching_cards = [] then
        andthen (call e EditNoMatch (notify (NoCardsFound prefix' (length card_numbers))) s)
          (\<lambda>s. (None, del_context uid s))
      else
        (let results_filename = results_name prefix' (length matching_cards) in
         andthen (call e WriteResults
                    (\<lambda>s. s\<lparr>files := write_results (linesep e) results_filename
                                      matching_cards (files s)\<rparr>) s) (\<lambda>s.
         andthen (call e SendDocument
                    (\<lambda>s. notify (SearchResults results_filename (files s results_filename)
                                  prefix' (length matching_cards) (length card_numbers)) s)
                    s) (\<lambda>s.
         andthen (call e RemoveResults (remove_file results_filename) s) (\<lambda>s.
         andthen (call e RemoveTemp (remove_file temp_file_path) s) (\<lambda>s.
         call e DeleteProcessing (notify ProcessingDeleted) (del_context uid s)))))))"

text \<open>The branch for an upload without search context (lines 248 to 258).\<close>

definition plain_upload :: "env \<Rightarrow> int \<Rightarrow> pystr \<Rightarrow> pystr list \<Rightarrow> bot_state \<Rightarrow> outcome" where
  "plain_upload e n temp_file_path card_numbers s =
     andthen (call e EditUploaded (notify (FileUploaded (length card_numbers) n)) s)
       (call e RemoveTempUpload (remove_file temp_file_path))"

text \<open>
  The body of the \<^verbatim>\<open>try\<close> statement of \<open>handle_document\<close> (lines 178 to 258). A
  \<^verbatim>\<open>return\<close> ends it without exception. Comparing an absent \<^verbatim>\<open>file_size\<close> with a
  number raises \<^verbatim>\<open>TypeError\<close>.
\<close>

definition handle_document_try :: "env \<Rightarrow> document \<Rightarrow> user_id \<Rightarrow> bot_state \<Rightarrow> outcome" where
  "handle_document_try e doc uid s =
     (case file_size doc of
        None \<Rightarrow> (Some OtherException, s)
      | Some n \<Rightarrow>
          if n > 10 * 1024 * 1024 then call e EditTooLarge (notify TooLarge) s
          else
            andthen (call e GetFile (\<lambda>s. s) s) (\<lambda>s.
            let temp_file_path = temp_cards_name uid in
            andthen (call e DownloadToDrive
                       (store_file temp_file_path (downloaded e (file_id doc))) s) (\<lambda>s.
            case read_card_numbers_from_file (files s) temp_file_path of
              Inl x \<Rightarrow> (Some x, s)
            | Inr card_numbers \<Rightarrow>
                if card_numbers = [] then call e EditEmpty (notify EmptyFile) s
                else
                  (case user_contexts s uid of
                     None \<Rightarrow> plain_upload e n temp_file_path card_numbers s
                   | Some ctx \<Rightarrow>
                       if waiting_for_file ctx then
                         search_upload e uid temp_file_path (search_prefix ctx) card_numbers s
                       else plain_upload e n temp_file_path card_numbers s))))"

text \<open>
  The \<^verbatim>\<open>except Exception as e\<close> clause (lines 260 to 268): it reports the error and
  then deletes the context of the user, if there is one.
\<close>

definition handle_document_except :: "env \<Rightarrow> user_id \<Rightarrow> exn \<Rightarrow> bot_state \<Rightarrow> outcome" where
  "handle_document_except e uid x s =
     andthen (call e EditError (notify (ErrorDetails x)) s)
       (\<lambda>s. (None, if user_contexts s uid \<noteq> None then del_context uid s else s))"

text \<open>
  \<open>handle_document\<close>: the processing message and the check of the file name come before
  the \<^verbatim>\<open>try\<close>, so an exception there leaves the function at once, as does an exception
  that \<^verbatim>\<open>except Exception\<close> does not catch. Calling \<^verbatim>\<open>endswith\<close> on an absent
  \<^verbatim>\<open>file_name\<close> raises \<^verbatim>\<open>AttributeError\<close>.
\<close>

definition handle_document :: "env \<Rightarrow> document \<Rightarrow> user_id \<Rightarrow> bot_state \<Rightarrow> outcome" where
  "handle_document e doc uid s =
     andthen (call e ReplyProcessing (notify Processing) s) (\<lambda>s.
     case file_name doc of
       None \<Rightarrow> (Some OtherException, s)
     | Some name \<Rightarrow>
         if \<not> endswith name (str ''.txt'') then call e EditNotTxt (notify NotTxt) s
         else
           (case handle_document_try e doc uid s of
              (None, s') \<Rightarrow> (None, s')
            | (Some x, s') \<Rightarrow>
                if x = CancelledError then (Some x, s')
                else handle_document_except e uid x s'))"

section \<open>Predicates used to state the properties\<close>

text \<open>A string without any line boundary.\<close>

definition linebreak_free :: "pystr \<Rightarrow> bool" where
  "linebreak_free s \<longleftrightarrow> list_all (\<lambda>c. \<not> is_linebreak c) s"

text \<open>
  A record as \<open>read_card_numbers_from_file\<close> produces it: a non-empty line that
  neither starts nor ends with whitespace.
\<close>

definition is_record :: "pystr \<Rightarrow> bool" where
  "is_record r \<longleftrightarrow>
     r \<noteq> [] \<and> \<not> is_space (hd r) \<and> \<not> is_space (last r) \<and> linebreak_free r"

text \<open>
  The elements of a list in the order of their first occurrence, those of \<open>seen\<close> left
  out.
\<close>

fun first_seen :: "'a set \<Rightarrow> 'a list \<Rightarrow> 'a list" where
  "first_seen seen [] = []"
| "first_seen seen (x # xs) =
     (if x \<in> seen then first_seen seen xs else x # first_seen (insert x seen) xs)"

text \<open>
  The prefixes that the loop of \<open>stats_command\<close> counts: the first four characters of
  each of the first 5000 records that has at least four.
\<close>

definition analysed_prefixes :: "pystr list \<Rightarrow> pystr list" where
  "analysed_prefixes R = map (take 4) [c \<leftarrow> take 5000 R. length c \<ge> 4]"

text \<open>
  The upload is turned down inside the \<^verbatim>\<open>try\<close> statement: the message about the size
  or the message about the empty file is sent.
\<close>

definition rejected_in_try :: "env \<Rightarrow> document \<Rightarrow> user_id \<Rightarrow> bot_state \<Rightarrow> bool" where
  "rejected_in_try e doc uid s =
     (case file_size doc of
        None \<Rightarrow> False
      | Some n \<Rightarrow>
          if n > 10 * 1024 * 1024 then raises e EditTooLarge = None
          else raises e GetFile = None \<and> raises e DownloadToDrive = None
               \<and> read_card_numbers_from_file
                    ((files s)(temp_cards_name uid := downloaded e (file_id doc)))
                    (temp_cards_name uid) = Inr []
               \<and> raises e EditEmpty = None)"

text \<open>
  The upload is turned down by one of the three checks of \<open>handle_document\<close>, the file
  name, the size or the empty list of records, and the user is told so.
\<close>

definition upload_rejected :: "env \<Rightarrow> document \<Rightarrow> user_id \<Rightarrow> bot_state \<Rightarrow> bool" where
  "upload_rejected e doc uid s =
     (raises e ReplyProcessing = None \<and>
      (case file_name doc of
         None \<Rightarrow> False
       | Some name \<Rightarrow>
           if \<not> endswith name (str ''.txt'') then raises e EditNotTxt = None
           else rejected_in_try e doc uid s))"

section \<open>Properties of the filter\<close>

lemma startswith_iff_prefix: "startswith s p \<longleftrightarrow> prefix p s"
  by (induction s p rule: startswith.induct) auto

lemma extract_matching_cards_filter:
  "extract_matching_cards R p = filter (prefix p) R"
  unfolding extract_matching_cards_def
  by (rule filter_cong) (simp_all add: startswith_iff_prefix)

text \<open>
  C1. For every list of records \<open>R\<close> and every non-empty prefix \<open>p\<close>, every element of
  \<open>extract_matching_cards R p\<close> starts with \<open>p\<close> (it is \<open>p\<close> followed by some rest), and
  the result is a subsequence of \<open>R\<close>: the records kept appear in the order they have in
  \<open>R\<close>. The result is moreover exactly the records of \<open>R\<close> that start with \<open>p\<close>.
\<close>

theorem extract_matching_cards_prefix_subseq:
  assumes "p \<noteq> []"
  shows "(\<forall>card \<in> set (extract_matching_cards R p). prefix p card)
       \<and> subseq (extract_matching_cards R p) R
       \<and> extract_matching_cards R p = filter (prefix p) R"
proof -
  have eq: "extract_matching_cards R p = filter (prefix p) R"
    by (rule extract_matching_cards_filter)
  have "\<forall>card \<in> set (filter (prefix p) R). prefix p card"
    by simp
  moreover have "subseq (filter (prefix p) R) R"
    by (rule subseq_filter_left)
  ultimately show ?thesis
    using eq by simp
qed

theorem extract_matching_cards_prefix_subseq_witness:
  "str ''4000'' \<noteq> []
   \<and> extract_matching_cards [str ''4000111'', str ''5000333'', str ''4000222''] (str ''4000'')
       = [str ''4000111'', str ''4000222'']
   \<and> prefix (str ''4000'') (str ''4000111'')
   \<and> prefix (str ''4000'') (str ''4000222'')
   \<and> subseq [str ''4000111'', str ''4000222'']
        [str ''4000111'', str ''5000333'', str ''4000222'']"
proof -
  let ?R = "[str ''4000111'', str ''5000333'', str ''4000222'']"
  have ne: "str ''4000'' \<noteq> []"
    by simp
  have val: "extract_matching_cards ?R (str ''4000'') = [str ''4000111'', str ''4000222'']"
    by (simp add: extract_matching_cards_def)
  from extract_matching_cards_prefix_subseq [OF ne, of ?R]
  have "\<forall>card \<in> set [str ''4000111'', str ''4000222'']. prefix (str ''4000'') card"
    and "subseq [str ''4000111'', str ''4000222''] ?R"
    unfolding val by blast+
  then have "prefix (str ''4000'') (str ''4000111'')"
    and "prefix (str ''4000'') (str ''4000222'')"
    and "subseq [str ''4000111'', str ''4000222''] ?R"
    by simp_all
  with ne val show ?thesis
    by blast
qed

text \<open>
  C8. The filter is idempotent: filtering the result of \<open>extract_matching_cards R p\<close>
  again with the same prefix changes nothing. This holds for every prefix \<open>p\<close>, so in
  particular for every non-empty one.
\<close>

theorem extract_matching_cards_idempotent:
  "extract_matching_cards (extract_matching_cards R p) p = extract_matching_cards R p"
  by (simp add: extract_matching_cards_def)

text \<open>
  C9. With the empty string as prefix the filter returns its input unchanged: every
  string starts with the empty string. The function returns a list for every input, so
  no error is raised.
\<close>

theorem extract_matching_cards_empty_prefix:
  "extract_matching_cards R [] = R"
  by (simp add: extract_matching_cards_def)

text \<open>
  C2. The claim that the empty prefix is rejected does not hold for the code: on the
  one-record list below the call returns that list.
\<close>

theorem empty_prefix_rejected_counterexample:
  "extract_matching_cards [str ''4000111''] [] = [str ''4000111'']"
  by (simp add: extract_matching_cards_def)

text \<open>
  C2, as amended. For every non-empty list of records \<open>R\<close>, the filter called with the
  empty prefix raises nothing: it returns a non-empty list, all of \<open>R\<close>.
\<close>

theorem empty_prefix_accepted:
  assumes "R \<noteq> []"
  shows "extract_matching_cards R [] = R \<and> extract_matching_cards R [] \<noteq> []"
  using assms by (simp add: extract_matching_cards_def)

theorem empty_prefix_accepted_witness:
  "[str ''4000111'', str ''5000333''] \<noteq> []
   \<and> extract_matching_cards [str ''4000111'', str ''5000333''] []
       = [str ''4000111'', str ''5000333'']
   \<and> extract_matching_cards [str ''4000111'', str ''5000333''] [] \<noteq> []"
proof -
  have ne: "[str ''4000111'', str ''5000333''] \<noteq> []"
    by simp
  from empty_prefix_accepted [OF ne] show ?thesis
    by simp
qed

section \<open>Properties of strip, splitlines and the newline translations\<close>

lemma linebreak_is_space: "is_linebreak c \<Longrightarrow> is_space c"
  unfolding is_linebreak_def is_space_def by linarith

lemma set_strip: "set (strip s) \<subseteq> set s"
proof -
  have "set (strip s) \<subseteq> set (dropWhile is_space s)"
    unfolding strip_def using set_dropWhileD by fastforce
  also have "\<dots> \<subseteq> set s"
    using set_dropWhileD by fastforce
  finally show ?thesis .
qed

lemma last_strip: "strip s \<noteq> [] \<Longrightarrow> \<not> is_space (last (strip s))"
  unfolding strip_def by (simp add: last_rev hd_dropWhile)

lemma last_dropWhile: "dropWhile P xs \<noteq> [] \<Longrightarrow> last (dropWhile P xs) = last xs"
  by (induction xs) (auto split: if_splits)

lemma hd_strip: "strip s \<noteq> [] \<Longrightarrow> \<not> is_space (hd (strip s))"
proof -
  assume ne: "strip s \<noteq> []"
  let ?ys = "dropWhile is_space s"
  from ne have ne2: "dropWhile is_space (rev ?ys) \<noteq> []"
    by (simp add: strip_def)
  have "\<And>zs. dropWhile is_space (rev zs) \<noteq> [] \<Longrightarrow> zs \<noteq> []"
    by auto
  from this [OF ne2] have ys: "?ys \<noteq> []" .
  have "hd (strip s) = last (dropWhile is_space (rev ?ys))"
    by (simp add: strip_def hd_rev)
  also have "\<dots> = last (rev ?ys)"
    using ne2 by (rule last_dropWhile)
  also have "\<dots> = hd ?ys"
    using ys by (simp add: last_rev)
  finally show ?thesis
    using ys hd_dropWhile [of is_space s] by simp
qed

lemma strip_id: "s \<noteq> [] \<Longrightarrow> \<not> is_space (hd s) \<Longrightarrow> \<not> is_space (last s) \<Longrightarrow> strip s = s"
proof -
  assume ne: "s \<noteq> []" and h: "\<not> is_space (hd s)" and l: "\<not> is_space (last s)"
  have 1: "dropWhile is_space s = s"
    using h by (simp add: dropWhile_eq_self_iff)
  have "hd (rev s) = last s"
    using ne by (simp add: hd_rev)
  then have 2: "dropWhile is_space (rev s) = rev s"
    using l by (simp add: dropWhile_eq_self_iff)
  show ?thesis
    by (simp add: strip_def 1 2)
qed


lemma linebreak_free_simps [simp]:
  "linebreak_free []"
  "linebreak_free (c # s) \<longleftrightarrow> \<not> is_linebreak c \<and> linebreak_free s"
  "linebreak_free (s @ t) \<longleftrightarrow> linebreak_free s \<and> linebreak_free t"
  by (simp_all add: linebreak_free_def)

lemma splitlines_from_linebreak_free:
  "linebreak_free line \<Longrightarrow> l \<in> set (splitlines_from line s) \<Longrightarrow> linebreak_free l"
proof (induction line s rule: splitlines_from.induct)
  case (1 line)
  then show ?case by (simp split: if_splits)
next
  case (2 line c cs)
  show ?case
  proof (cases "is_linebreak c")
    case True
    show ?thesis
    proof (cases cs)
      case Nil
      with True 2 show ?thesis by auto
    next
      case (Cons d ds)
      with True 2 show ?thesis by (cases "c = CR \<and> d = LF") auto
    qed
  next
    case False
    with 2 show ?thesis by simp
  qed
qed

lemma splitlines_from_line:
  "linebreak_free r \<Longrightarrow>
   splitlines_from line (r @ LF # rest) = (line @ r) # splitlines_from [] rest"
proof (induction r arbitrary: line)
  case Nil
  have "is_linebreak LF" by (simp add: is_linebreak_def)
  then show ?case by (cases rest) simp_all
next
  case (Cons c r)
  then show ?case by simp
qed

lemma splitlines_results_text:
  "\<forall>r \<in> set M. linebreak_free r \<Longrightarrow> splitlines (results_text M) = M"
  unfolding splitlines_def results_text_def
  by (induction M) (simp_all add: splitlines_from_line)

lemma universal_write_newlines:
  assumes "sep = [LF] \<or> sep = [CR, LF]" and "CR \<notin> set t"
  shows "universal_newlines (write_newlines sep t) = t"
  using assms by (induction t) (auto simp: write_newlines_def)

lemma linebreak_free_strip: "linebreak_free s \<Longrightarrow> linebreak_free (strip s)"
  using set_strip [of s] by (auto simp: linebreak_free_def list_all_iff)

lemma is_record_strip: "linebreak_free l \<Longrightarrow> strip l \<noteq> [] \<Longrightarrow> is_record (strip l)"
  by (simp add: is_record_def hd_strip last_strip linebreak_free_strip)

lemma comprehension_filter_map:
  "concat (map (\<lambda>x. if P (f x) then [f x] else []) xs) = filter P (map f xs)"
  by (induction xs) simp_all

lemma read_card_numbers_from_file_text:
  "fs path = Inr raw \<Longrightarrow>
   read_card_numbers_from_file fs path
     = Inr [l \<leftarrow> map strip (splitlines (universal_newlines raw)). l \<noteq> []]"
  by (simp add: read_card_numbers_from_file_def read_text_def
      comprehension_filter_map [of "\<lambda>l. l \<noteq> []" strip])

lemma read_card_numbers_from_file_records:
  assumes "read_card_numbers_from_file fs path = Inr R"
  shows "\<forall>r \<in> set R. is_record r"
proof (cases "fs path")
  case (Inl x)
  with assms have "R = []"
    by (cases x) (simp_all add: read_card_numbers_from_file_def read_text_def)
  then show ?thesis by simp
next
  case (Inr raw)
  with assms have R: "R = [l \<leftarrow> map strip (splitlines (universal_newlines raw)). l \<noteq> []]"
    by (simp add: read_card_numbers_from_file_text)
  show ?thesis
  proof
    fix r assume "r \<in> set R"
    with R obtain l where l: "l \<in> set (splitlines (universal_newlines raw))"
      and r: "r = strip l" "strip l \<noteq> []"
      by auto
    from l have "linebreak_free l"
      unfolding splitlines_def by (rule splitlines_from_linebreak_free [rotated]) simp
    with r show "is_record r"
      by (simp add: is_record_strip)
  qed
qed

lemma is_linebreak_CR: "is_linebreak CR"
  by (simp add: is_linebreak_def)

lemma CR_notin_results_text:
  "\<forall>r \<in> set M. linebreak_free r \<Longrightarrow> CR \<notin> set (results_text M)"
  using is_linebreak_CR by (auto simp: results_text_def linebreak_free_def list_all_iff)

lemma read_written_results:
  assumes sep: "sep = [LF] \<or> sep = [CR, LF]"
    and M: "\<forall>r \<in> set M. is_record r"
  shows "read_card_numbers_from_file (write_results sep out M fs) out = Inr M"
proof -
  from M have free: "\<forall>r \<in> set M. linebreak_free r"
    by (simp add: is_record_def)
  have "universal_newlines (write_newlines sep (results_text M)) = results_text M"
    using sep CR_notin_results_text [OF free] by (rule universal_write_newlines)
  moreover have "splitlines (results_text M) = M"
    using free by (rule splitlines_results_text)
  moreover have "map strip M = M"
    using M by (simp add: map_idI is_record_def strip_id)
  moreover have "[l \<leftarrow> M. l \<noteq> []] = M"
    using M by (simp add: is_record_def)
  ultimately show ?thesis
    by (simp add: read_card_numbers_from_file_text write_results_def)
qed

lemma is_record_extract:
  "\<forall>r \<in> set R. is_record r \<Longrightarrow> \<forall>r \<in> set (extract_matching_cards R p). is_record r"
  by (simp add: extract_matching_cards_def)

section \<open>Properties of read_card_numbers_from_file\<close>

lemma read_card_numbers_from_file_raises:
  "read_card_numbers_from_file fs path = Inl x \<longleftrightarrow> fs path = Inl x \<and> x \<noteq> FileNotFoundError"
  by (cases "fs path"; cases x)
     (auto simp: read_card_numbers_from_file_def read_text_def split: exn.splits)

lemma read_card_numbers_from_file_empty_iff:
  assumes "fs path = Inr raw"
  shows "read_card_numbers_from_file fs path = Inr []
         \<longleftrightarrow> (\<forall>l \<in> set (splitlines (universal_newlines raw)). strip l = [])"
  using assms by (auto simp: read_card_numbers_from_file_text filter_empty_conv)

lemma read_card_numbers_from_file_missing:
  "fs path = Inl FileNotFoundError \<Longrightarrow> read_card_numbers_from_file fs path = Inr []"
  by (simp add: read_card_numbers_from_file_def read_text_def)

text \<open>
  C6. \<open>read_card_numbers_from_file\<close> splits the text of the file into lines, strips
  each line and drops the lines that are empty after stripping: every record returned
  is non-empty, neither starts nor ends with whitespace and holds no line boundary. For
  the text \<^verbatim>\<open>"  4000\n\n5000  \n"\<close> the records are \<^verbatim>\<open>["4000", "5000"]\<close>.
\<close>

theorem parse_trims_and_drops_blank_lines:
  assumes "fs path = Inr raw"
  shows "read_card_numbers_from_file fs path
           = Inr [l \<leftarrow> map strip (splitlines (universal_newlines raw)). l \<noteq> []]
       \<and> (\<forall>R. read_card_numbers_from_file fs path = Inr R \<longrightarrow>
             (\<forall>r \<in> set R. r \<noteq> [] \<and> \<not> is_space (hd r) \<and> \<not> is_space (last r)
                \<and> linebreak_free r))
       \<and> (raw = str ''  4000'' @ [LF, LF] @ str ''5000  '' @ [LF] \<longrightarrow>
             read_card_numbers_from_file fs path = Inr [str ''4000'', str ''5000''])"
proof (intro conjI allI impI)
  show eq: "read_card_numbers_from_file fs path
           = Inr [l \<leftarrow> map strip (splitlines (universal_newlines raw)). l \<noteq> []]"
    using assms by (rule read_card_numbers_from_file_text)
  show "\<forall>r \<in> set R. r \<noteq> [] \<and> \<not> is_space (hd r) \<and> \<not> is_space (last r) \<and> linebreak_free r"
    if "read_card_numbers_from_file fs path = Inr R" for R
    using read_card_numbers_from_file_records [OF that] by (simp add: is_record_def)
  show "read_card_numbers_from_file fs path = Inr [str ''4000'', str ''5000'']"
    if "raw = str ''  4000'' @ [LF, LF] @ str ''5000  '' @ [LF]"
    unfolding eq that
    by (simp add: splitlines_def strip_def is_space_def is_linebreak_def)
qed

theorem parse_trims_and_drops_blank_lines_witness:
  "((\<lambda>_. Inl FileNotFoundError)
      (str ''temp_cards_7.txt'' := Inr (str ''  4000'' @ [LF, LF] @ str ''5000  '' @ [LF])))
     (str ''temp_cards_7.txt'')
     = Inr (str ''  4000'' @ [LF, LF] @ str ''5000  '' @ [LF])
   \<and> read_card_numbers_from_file
        ((\<lambda>_. Inl FileNotFoundError)
           (str ''temp_cards_7.txt'' := Inr (str ''  4000'' @ [LF, LF] @ str ''5000  '' @ [LF])))
        (str ''temp_cards_7.txt'')
      = Inr [str ''4000'', str ''5000'']"
proof -
  let ?raw = "str ''  4000'' @ [LF, LF] @ str ''5000  '' @ [LF]"
  let ?path = "str ''temp_cards_7.txt''"
  let ?fs = "(\<lambda>_. Inl FileNotFoundError)(?path := Inr ?raw) :: filesystem"
  have h: "?fs ?path = Inr ?raw"
    by simp
  note inst = parse_trims_and_drops_blank_lines [of ?fs ?path ?raw, OF h]
  from inst have "?raw = ?raw \<longrightarrow>
      read_card_numbers_from_file ?fs ?path = Inr [str ''4000'', str ''5000'']"
    by (elim conjE)
  then have "read_card_numbers_from_file ?fs ?path = Inr [str ''4000'', str ''5000'']"
    by (rule mp) (rule refl)
  with h show ?thesis
    by (rule conjI)
qed

text \<open>
  C7. Let \<open>R\<close> be a record set, that is, what \<open>read_card_numbers_from_file\<close> returned
  for some file, let \<open>p\<close> be a non-empty prefix and let the platform's line separator be
  \<^verbatim>\<open>\n\<close> or \<^verbatim>\<open>\r\n\<close>. Writing \<open>extract_matching_cards R p\<close> as \<open>handle_document\<close> does,
  one record and a newline per line and nothing else, and reading the file written with
  \<open>read_card_numbers_from_file\<close> gives \<open>extract_matching_cards R p\<close> back, the same
  records in the same order.
\<close>

theorem results_file_roundtrip:
  assumes "read_card_numbers_from_file fs path = Inr R"
    and "p \<noteq> []"
    and "sep = [LF] \<or> sep = [CR, LF]"
  shows "read_card_numbers_from_file
           (write_results sep out (extract_matching_cards R p) fs') out
         = Inr (extract_matching_cards R p)"
  using assms(3)
  by (rule read_written_results)
     (rule is_record_extract, rule read_card_numbers_from_file_records, rule assms(1))

theorem results_file_roundtrip_witness:
  "read_card_numbers_from_file
     (\<lambda>_. Inr (str '' 4000111 '' @ [CR, LF] @ str ''5000333'' @ [LF, LF] @ str ''4000222''))
     (str ''temp_cards_7.txt'')
     = Inr [str ''4000111'', str ''5000333'', str ''4000222'']
   \<and> str ''4000'' \<noteq> []
   \<and> ([CR, LF] = [LF] \<or> [CR, LF] = [CR, LF])
   \<and> extract_matching_cards [str ''4000111'', str ''5000333'', str ''4000222'']
         (str ''4000'') = [str ''4000111'', str ''4000222'']
   \<and> read_card_numbers_from_file
         (write_results [CR, LF] (str ''cards_4000_2_results.txt'')
            (extract_matching_cards [str ''4000111'', str ''5000333'', str ''4000222'']
               (str ''4000''))
            (\<lambda>_. Inl FileNotFoundError))
         (str ''cards_4000_2_results.txt'')
       = Inr (extract_matching_cards [str ''4000111'', str ''5000333'', str ''4000222'']
               (str ''4000''))"
proof -
  have parsed: "read_card_numbers_from_file
     (\<lambda>_. Inr (str '' 4000111 '' @ [CR, LF] @ str ''5000333'' @ [LF, LF] @ str ''4000222''))
     (str ''temp_cards_7.txt'')
     = Inr [str ''4000111'', str ''5000333'', str ''4000222'']"
    by (simp add: read_card_numbers_from_file_def read_text_def splitlines_def strip_def
        is_space_def is_linebreak_def)
  have ne: "str ''4000'' \<noteq> []"
    by simp
  have sep: "[CR, LF] = [LF] \<or> [CR, LF] = [CR, LF]"
    by simp
  have val: "extract_matching_cards [str ''4000111'', str ''5000333'', str ''4000222'']
         (str ''4000'') = [str ''4000111'', str ''4000222'']"
    by (simp add: extract_matching_cards_def)
  from results_file_roundtrip [OF parsed ne sep] parsed ne sep val
  show ?thesis
    by blast
qed

section \<open>Properties of the prefix statistics\<close>

lemma keys_dict_set:
  "map fst (dict_set d k v) = (if k \<in> set (map fst d) then map fst d else map fst d @ [k])"
proof (induction d)
  case Nil
  show ?case by simp
next
  case (Cons a d)
  obtain k' v' where a: "a = (k', v')" by (cases a)
  show ?case
  proof (cases "k' = k")
    case True
    with a show ?thesis by simp
  next
    case False
    with a Cons show ?thesis by (cases "k \<in> set (map fst d)") simp_all
  qed
qed

lemma dict_get_dict_set:
  "dict_get (dict_set d k v) k' dflt = (if k' = k then v else dict_get d k' dflt)"
  by (induction d) auto

lemma keys_count_prefixes:
  "map fst (count_prefixes cards d)
     = map fst d @ first_seen (set (map fst d)) (map (take 4) [c \<leftarrow> cards. length c \<ge> 4])"
proof (induction cards arbitrary: d)
  case Nil
  show ?case by simp
next
  case (Cons c cards)
  show ?case
  proof (cases "length c \<ge> 4")
    case False
    then show ?thesis using Cons.IH [of d] by simp
  next
    case True
    let ?d = "dict_set d (take 4 c) (dict_get d (take 4 c) 0 + 1)"
    have "map fst (count_prefixes (c # cards) d) = map fst (count_prefixes cards ?d)"
      using True by (simp add: Let_def)
    also have "\<dots> = map fst ?d
        @ first_seen (set (map fst ?d)) (map (take 4) [c \<leftarrow> cards. length c \<ge> 4])"
      by (rule Cons.IH)
    also have "\<dots> = map fst d
        @ first_seen (set (map fst d)) (map (take 4) [c \<leftarrow> c # cards. length c \<ge> 4])"
      using True by (simp add: keys_dict_set insert_absorb)
    finally show ?thesis .
  qed
qed

lemma get_count_prefixes:
  "dict_get (count_prefixes cards d) q 0
     = dict_get d q 0 + int (count_list (map (take 4) [c \<leftarrow> cards. length c \<ge> 4]) q)"
proof (induction cards arbitrary: d)
  case Nil
  show ?case by simp
next
  case (Cons c cards)
  show ?case
    using Cons.IH [of "dict_set d (take 4 c) (dict_get d (take 4 c) 0 + 1)"] Cons.IH [of d]
    by (simp add: Let_def dict_get_dict_set)
qed

lemma distinct_first_seen: "distinct (first_seen seen xs) \<and> set (first_seen seen xs) = set xs - seen"
  by (induction seen xs rule: first_seen.induct) auto

lemma dict_get_member:
  "distinct (map fst d) \<Longrightarrow> (k, v) \<in> set d \<Longrightarrow> dict_get d k dflt = v"
  by (induction d) (auto simp: rev_image_eqI)

lemma keys_prefix_counts:
  "map fst (prefix_counts R) = first_seen {} (analysed_prefixes R)"
  by (simp add: prefix_counts_def analysed_prefixes_def keys_count_prefixes)

lemma counts_prefix_counts:
  assumes "(q, n) \<in> set (prefix_counts R)"
  shows "n = int (count_list (analysed_prefixes R) q)"
proof -
  have "distinct (map fst (prefix_counts R))"
    by (simp add: keys_prefix_counts distinct_first_seen)
  from dict_get_member [OF this assms, of 0]
  show ?thesis
    by (simp add: prefix_counts_def analysed_prefixes_def get_count_prefixes)
qed

lemma sorted_reverse_mset: "mset (sorted_reverse items) = mset items"
  by (simp add: sorted_reverse_def)

lemma sorted_reverse_descending:
  "sorted_wrt (\<lambda>a b. snd a \<ge> snd b) (sorted_reverse items)"
proof -
  have "sorted (map snd (sort_key snd (rev items)))"
    by (rule sorted_sort_key)
  then have "sorted_wrt (\<lambda>a b. snd a \<le> snd b) (sort_key snd (rev items))"
    by (simp add: sorted_map)
  then show ?thesis
    by (simp add: sorted_reverse_def sorted_wrt_rev)
qed

lemma sorted_reverse_stable:
  "filter (\<lambda>e. snd e = c) (sorted_reverse items) = filter (\<lambda>e. snd e = c) items"
  by (simp add: sorted_reverse_def rev_filter [symmetric] sort_key_stable)

text \<open>
  C5. The claim that the statistics return the top \<open>topK\<close> prefixes for a parameter
  \<open>topK\<close> does not hold for the code, which has no such parameter and always cuts at
  10: on the three records below, where the top 1 is asked for in the specification,
  \<open>top_prefixes\<close> returns two entries, not the one entry of the top 1.
\<close>

theorem top_k_parameter_counterexample:
  "top_prefixes [str ''4000a'', str ''4000b'', str ''5000c'']
     = [(str ''4000'', 2), (str ''5000'', 1)]
   \<and> top_prefixes [str ''4000a'', str ''4000b'', str ''5000c'']
       \<noteq> take 1 (sorted_reverse (prefix_counts [str ''4000a'', str ''4000b'', str ''5000c'']))"
  by (simp add: top_prefixes_def prefix_counts_def sorted_reverse_def)

text \<open>
  C5, as amended. The statistics of \<open>stats_command\<close>. The keys of \<open>prefix_counts\<close> are
  the first four characters of the records that have at least four, among the first 5000
  records, in the order in which they are first met, and each count is the number of
  such records with that prefix. \<open>top_prefixes\<close> is the first 10 entries, a fixed number
  and not a parameter, of these entries sorted by descending count (all of them when
  there are fewer than 10): the sorted list is a permutation of the entries, in
  descending order of the count, in which entries with the same count keep the order in
  which they were first met.
\<close>

theorem top_prefixes_frequency_ranking:
  "map fst (prefix_counts R) = first_seen {} (analysed_prefixes R)
   \<and> (\<forall>(q, n) \<in> set (prefix_counts R). n = int (count_list (analysed_prefixes R) q))
   \<and> top_prefixes R = take 10 (sorted_reverse (prefix_counts R))
   \<and> length (top_prefixes R) = min 10 (length (prefix_counts R))
   \<and> mset (sorted_reverse (prefix_counts R)) = mset (prefix_counts R)
   \<and> sorted_wrt (\<lambda>a b. snd a \<ge> snd b) (sorted_reverse (prefix_counts R))
   \<and> (\<forall>c. filter (\<lambda>e. snd e = c) (sorted_reverse (prefix_counts R))
           = filter (\<lambda>e. snd e = c) (prefix_counts R))"
proof (intro conjI allI)
  show "map fst (prefix_counts R) = first_seen {} (analysed_prefixes R)"
    by (rule keys_prefix_counts)
  show "\<forall>(q, n) \<in> set (prefix_counts R). n = int (count_list (analysed_prefixes R) q)"
    using counts_prefix_counts by blast
  show "top_prefixes R = take 10 (sorted_reverse (prefix_counts R))"
    by (simp add: top_prefixes_def)
  show "length (top_prefixes R) = min 10 (length (prefix_counts R))"
    by (simp add: top_prefixes_def sorted_reverse_def min.commute)
  show "mset (sorted_reverse (prefix_counts R)) = mset (prefix_counts R)"
    by (rule sorted_reverse_mset)
  show "sorted_wrt (\<lambda>a b. snd a \<ge> snd b) (sorted_reverse (prefix_counts R))"
    by (rule sorted_reverse_descending)
  show "filter (\<lambda>e. snd e = c) (sorted_reverse (prefix_counts R))
           = filter (\<lambda>e. snd e = c) (prefix_counts R)" for c
    by (rule sorted_reverse_stable)
qed

theorem top_prefixes_frequency_ranking_witness:
  "(str ''4000'', 2)
     \<in> set (prefix_counts [str ''5000c'', str ''4000a'', str ''123'', str ''4000b'', str ''6000d''])
   \<and> (2 :: int) = int (count_list
         (analysed_prefixes [str ''5000c'', str ''4000a'', str ''123'', str ''4000b'', str ''6000d''])
         (str ''4000''))
   \<and> top_prefixes [str ''5000c'', str ''4000a'', str ''123'', str ''4000b'', str ''6000d'']
       = [(str ''4000'', 2), (str ''5000'', 1), (str ''6000'', 1)]"
proof -
  let ?R = "[str ''5000c'', str ''4000a'', str ''123'', str ''4000b'', str ''6000d'']"
  have counts: "prefix_counts ?R = [(str ''5000'', 1), (str ''4000'', 2), (str ''6000'', 1)]"
    by (simp add: prefix_counts_def)
  then have mem: "(str ''4000'', 2) \<in> set (prefix_counts ?R)"
    by simp
  from top_prefixes_frequency_ranking [of ?R]
  have all: "\<forall>(q, n) \<in> set (prefix_counts ?R). n = int (count_list (analysed_prefixes ?R) q)"
    and top: "top_prefixes ?R = take 10 (sorted_reverse (prefix_counts ?R))"
    by blast+
  from all mem have "(2 :: int) = int (count_list (analysed_prefixes ?R) (str ''4000''))"
    by blast
  moreover have "top_prefixes ?R = [(str ''4000'', 2), (str ''5000'', 1), (str ''6000'', 1)]"
    unfolding top counts by (simp add: sorted_reverse_def)
  ultimately show ?thesis
    using mem by blast
qed

section \<open>Properties of the handlers\<close>

lemma call_cases:
  "call e st effect s = (r, s') \<Longrightarrow>
   (r = None \<and> raises e st = None \<and> s' = effect s) \<or> (r \<noteq> None \<and> raises e st = r \<and> s' = s)"
  by (auto simp: call_def split: option.splits)

lemma andthen_cases:
  "andthen r f = (x, s') \<Longrightarrow>
   (\<exists>s1. r = (None, s1) \<and> f s1 = (x, s')) \<or> (x \<noteq> None \<and> r = (x, s'))"
  by (cases r) (auto simp: andthen_def split: option.splits)

lemma user_contexts_simps [simp]:
  "user_contexts (notify m s) = user_contexts s"
  "user_contexts (store_file path content s) = user_contexts s"
  "user_contexts (remove_file path s) = user_contexts s"
  "user_contexts (del_context uid s) = (user_contexts s)(uid := None)"
  by (simp_all add: notify_def store_file_def remove_file_def del_context_def)

lemma files_simps [simp]:
  "files (notify m s) = files s"
  "files (store_file path content s) = (files s)(path := content)"
  "files (del_context uid s) = files s"
  by (simp_all add: notify_def store_file_def del_context_def)

lemma call_frame:
  assumes "user_contexts s B = c"
    and "\<And>s'. user_contexts (effect s') B = user_contexts s' B"
  shows "user_contexts (snd (call e st effect s)) B = c"
  using assms by (simp add: call_def split: option.splits)

lemma andthen_frame:
  assumes "user_contexts (snd r) B = c"
    and "\<And>s'. user_contexts (snd (f s')) B = user_contexts s' B"
  shows "user_contexts (snd (andthen r f)) B = c"
  using assms by (cases r) (auto simp: andthen_def split: option.splits)

lemma search_upload_frame:
  assumes "B \<noteq> uid"
  shows "user_contexts (snd (search_upload e uid tmp p cards s)) B = user_contexts s B"
  unfolding search_upload_def Let_def using assms
  by (auto intro!: andthen_frame call_frame)

lemma plain_upload_frame:
  "user_contexts (snd (plain_upload e n tmp cards s)) B = user_contexts s B"
  unfolding plain_upload_def
  by (auto intro!: andthen_frame call_frame)

lemma handle_document_try_frame:
  assumes "B \<noteq> uid"
  shows "user_contexts (snd (handle_document_try e doc uid s)) B = user_contexts s B"
  unfolding handle_document_try_def Let_def using assms
  by (auto intro!: andthen_frame call_frame search_upload_frame plain_upload_frame
      split: option.splits sum.splits)

lemma handle_document_except_frame:
  assumes "B \<noteq> uid"
  shows "user_contexts (snd (handle_document_except e uid x s)) B = user_contexts s B"
  unfolding handle_document_except_def using assms
  by (auto intro!: andthen_frame call_frame)

text \<open>
  C10. Processing a document uploaded by \<open>A\<close> leaves the entry of every other user \<open>B\<close>
  in \<open>user_contexts\<close> as it was, whether it is absent or holds a prefix, whatever the
  calls of the handler do and however the handler ends.
\<close>

theorem handle_document_frame:
  assumes "B \<noteq> A"
  shows "user_contexts (snd (handle_document e doc A s)) B = user_contexts s B"
proof -
  have inner: "user_contexts (snd (case handle_document_try e doc A s' of
              (None, s'') \<Rightarrow> (None, s'')
            | (Some x, s'') \<Rightarrow>
                if x = CancelledError then (Some x, s'')
                else handle_document_except e A x s'')) B = user_contexts s' B" for s'
    using handle_document_try_frame [OF assms, of e doc s']
      handle_document_except_frame [OF assms]
    by (cases "handle_document_try e doc A s'") (auto split: option.splits)
  show ?thesis
    unfolding handle_document_def
    by (rule andthen_frame, rule call_frame, simp)
       (auto simp: inner intro!: call_frame split: option.splits)
qed


theorem handle_document_frame_witness:
  "(8 :: user_id) \<noteq> 7
   \<and> user_contexts (snd (handle_document
       \<lparr>raises = (\<lambda>_. None),
        downloaded = (\<lambda>_. Inr (str ''4000111'' @ [LF] @ str ''5000333'' @ [LF])),
        linesep = [LF]\<rparr>
       \<lparr>file_name = Some (str ''cards.txt''), file_size = Some 16, file_id = str ''f1''\<rparr>
       7
       \<lparr>user_contexts = [7 \<mapsto> \<lparr>search_prefix = str ''4000'', waiting_for_file = True\<rparr>,
                          8 \<mapsto> \<lparr>search_prefix = str ''5000'', waiting_for_file = True\<rparr>],
        files = (\<lambda>_. Inl FileNotFoundError), sent = []\<rparr>)) 8
     = Some \<lparr>search_prefix = str ''5000'', waiting_for_file = True\<rparr>"
proof -
  have ne: "(8 :: user_id) \<noteq> 7"
    by simp
  from handle_document_frame [OF ne] ne show ?thesis
    by simp
qed

lemma search_upload_clears:
  "search_upload e uid tmp p cards s = (None, s') \<Longrightarrow> user_contexts s' uid = None"
  unfolding search_upload_def Let_def
  by (auto dest!: andthen_cases call_cases split: if_splits)

lemma handle_document_except_clears:
  "handle_document_except e uid x s = (None, s') \<Longrightarrow> user_contexts s' uid = None"
  unfolding handle_document_except_def
  by (auto dest!: andthen_cases call_cases split: if_splits)

lemma handle_document_try_result:
  assumes "user_contexts s uid = Some ctx" and "waiting_for_file ctx"
    and "handle_document_try e doc uid s = (r, s')"
  shows "(r = None \<longrightarrow>
            user_contexts s' uid = (if rejected_in_try e doc uid s then Some ctx else None))
       \<and> (r \<noteq> None \<longrightarrow> \<not> rejected_in_try e doc uid s)"
proof (cases "file_size doc")
  case None
  with assms show ?thesis
    by (auto simp: handle_document_try_def rejected_in_try_def)
next
  case (Some n)
  show ?thesis
  proof (cases "n > 10 * 1024 * 1024")
    case True
    with Some assms show ?thesis
      by (auto simp: handle_document_try_def rejected_in_try_def dest!: call_cases)
  next
    case False
    let ?tmp = "temp_cards_name uid"
    let ?s1 = "store_file ?tmp (downloaded e (file_id doc)) s"
    show ?thesis
    proof (cases "raises e GetFile = None \<and> raises e DownloadToDrive = None")
      case False
      then have norej: "\<not> rejected_in_try e doc uid s"
        using \<open>\<not> n > 10 * 1024 * 1024\<close> Some by (auto simp: rejected_in_try_def)
      from False have "\<exists>x. handle_document_try e doc uid s = (Some x, s)"
        using \<open>\<not> n > 10 * 1024 * 1024\<close> Some
        by (cases "raises e GetFile"; cases "raises e DownloadToDrive")
           (simp_all add: handle_document_try_def Let_def call_def andthen_def)
      with assms(3) norej show ?thesis
        by auto
    next
      case True
      with \<open>\<not> n > 10 * 1024 * 1024\<close> Some assms(3)
      have run: "(case read_card_numbers_from_file (files ?s1) ?tmp of
              Inl x \<Rightarrow> (Some x, ?s1)
            | Inr card_numbers \<Rightarrow>
                if card_numbers = [] then call e EditEmpty (notify EmptyFile) ?s1
                else
                  (case user_contexts ?s1 uid of
                     None \<Rightarrow> plain_upload e n ?tmp card_numbers ?s1
                   | Some ctx \<Rightarrow>
                       if waiting_for_file ctx then
                         search_upload e uid ?tmp (search_prefix ctx) card_numbers ?s1
                       else plain_upload e n ?tmp card_numbers ?s1)) = (r, s')"
        by (simp add: handle_document_try_def Let_def call_def andthen_def)
      have rej: "rejected_in_try e doc uid s \<longleftrightarrow>
          read_card_numbers_from_file (files ?s1) ?tmp = Inr [] \<and> raises e EditEmpty = None"
        using True \<open>\<not> n > 10 * 1024 * 1024\<close> Some by (auto simp: rejected_in_try_def)
      show ?thesis
      proof (cases "read_card_numbers_from_file (files ?s1) ?tmp")
        case (Inl x)
        with run rej show ?thesis by auto
      next
        case (Inr cards)
        show ?thesis
        proof (cases "cards = []")
          case True
          with Inr run rej assms(1) show ?thesis
            by (auto dest!: call_cases)
        next
          case False
          with Inr run assms(1,2)
          have "search_upload e uid ?tmp (search_prefix ctx) cards ?s1 = (r, s')"
            by simp
          with False Inr rej show ?thesis
            by (auto dest: search_upload_clears)
        qed
      qed
    qed
  qed
qed

lemma upload_clears_pending_unless_rejected:
  assumes "user_contexts s uid = Some ctx" and "waiting_for_file ctx"
    and "fst (handle_document e doc uid s) = None"
  shows "user_contexts (snd (handle_document e doc uid s)) uid
         = (if upload_rejected e doc uid s then Some ctx else None)"
proof -
  let ?s0 = "notify Processing s"
  obtain s' where run: "handle_document e doc uid s = (None, s')"
    using assms(3) by (cases "handle_document e doc uid s") simp
  from run have ok: "raises e ReplyProcessing = None"
    by (auto simp: handle_document_def call_def andthen_def split: option.splits)
  with run obtain name where name: "file_name doc = Some name"
    by (cases "file_name doc") (auto simp: handle_document_def call_def andthen_def)
  have rej0: "rejected_in_try e doc uid ?s0 = rejected_in_try e doc uid s"
    by (simp add: rejected_in_try_def split: option.splits)
  have "user_contexts s' uid = (if upload_rejected e doc uid s then Some ctx else None)"
  proof (cases "endswith name (str ''.txt'')")
    case False
    with ok name assms(1) run show ?thesis
      by (auto simp: handle_document_def upload_rejected_def call_def andthen_def
          split: option.splits)
  next
    case True
    obtain r s1 where try1: "handle_document_try e doc uid ?s0 = (r, s1)"
      by (cases "handle_document_try e doc uid ?s0")
    have ctx0: "user_contexts ?s0 uid = Some ctx"
      using assms(1) by simp
    note res = handle_document_try_result [OF ctx0 assms(2) try1, unfolded rej0]
    have rej: "upload_rejected e doc uid s = rejected_in_try e doc uid s"
      using ok name True by (simp add: upload_rejected_def)
    show ?thesis
    proof (cases r)
      case None
      with try1 ok name True run have "s1 = s'"
        by (simp add: handle_document_def call_def andthen_def)
      with None res rej show ?thesis by simp
    next
      case (Some x)
      with try1 ok name True run
      have "x \<noteq> CancelledError" and "handle_document_except e uid x s1 = (None, s')"
        by (auto simp: handle_document_def call_def andthen_def split: if_splits)
      then have "user_contexts s' uid = None"
        by (auto dest: handle_document_except_clears)
      with Some res rej show ?thesis by simp
    qed
  qed
  with run show ?thesis by simp
qed

lemma search_cards_overwrites:
  "user_contexts (snd (search_cards e (p # rest) uid s)) uid
     = Some \<lparr>search_prefix = p, waiting_for_file = True\<rparr>"
  by (simp add: search_cards_def call_def split: option.splits)

lemma search_cards_frame:
  "B \<noteq> uid \<Longrightarrow> user_contexts (snd (search_cards e args uid s)) B = user_contexts s B"
  by (cases args) (simp_all add: search_cards_def call_def split: option.splits)

lemma search_cards_no_argument:
  "user_contexts (snd (search_cards e [] uid s)) = user_contexts s"
  by (simp add: search_cards_def call_def split: option.splits)

lemmas handler_defs = handle_document_def handle_document_try_def handle_document_except_def
  search_upload_def plain_upload_def call_def andthen_def notify_def store_file_def
  remove_file_def del_context_def temp_cards_name_def results_name_def str_of_int_def
  read_card_numbers_from_file_def read_text_def splitlines_def strip_def is_space_def
  is_linebreak_def endswith_def extract_matching_cards_def write_results_def
  write_newlines_def results_text_def Let_def digits.simps

text \<open>
  C4. The claim that every upload ends the waiting does not hold for the code: the user
  below has a pending request and uploads a text file that holds one empty line. The
  handler reports that the file is empty and returns, and the request is still pending.
\<close>

theorem upload_keeps_pending_counterexample:
  "fst (handle_document
       \<lparr>raises = (\<lambda>_. None), downloaded = (\<lambda>_. Inr [LF]), linesep = [LF]\<rparr>
       \<lparr>file_name = Some (str ''cards.txt''), file_size = Some 1, file_id = str ''f1''\<rparr>
       7
       \<lparr>user_contexts = [7 \<mapsto> \<lparr>search_prefix = str ''4000'', waiting_for_file = True\<rparr>],
        files = (\<lambda>_. Inl FileNotFoundError), sent = []\<rparr>) = None
   \<and> user_contexts (snd (handle_document
       \<lparr>raises = (\<lambda>_. None), downloaded = (\<lambda>_. Inr [LF]), linesep = [LF]\<rparr>
       \<lparr>file_name = Some (str ''cards.txt''), file_size = Some 1, file_id = str ''f1''\<rparr>
       7
       \<lparr>user_contexts = [7 \<mapsto> \<lparr>search_prefix = str ''4000'', waiting_for_file = True\<rparr>],
        files = (\<lambda>_. Inl FileNotFoundError), sent = []\<rparr>)) 7
     = Some \<lparr>search_prefix = str ''4000'', waiting_for_file = True\<rparr>"
  by (simp add: handler_defs)

text \<open>
  C4, as amended. Let a user have a pending request and let \<open>handle_document\<close> return
  for an upload of that user (an exception caught by its \<^verbatim>\<open>except\<close> clause included). If
  the upload was turned down by one of the three checks (file name, size, no records)
  and the message that says so was sent without an exception, the request is pending as
  before; otherwise it is removed, whatever the filter found. In particular it is
  removed when a check turns the upload down inside the \<^verbatim>\<open>try\<close> statement but sending
  the message raises an exception that the \<^verbatim>\<open>except\<close> clause catches.
  A search command with an argument stores its prefix as the request of the user,
  replacing any request that user had, and changes the entry of no other user; a search
  command without argument changes nothing. \<open>user_contexts\<close> being a map from users to
  requests, a user never has more than one.
\<close>

theorem pending_request_lifecycle:
  "(user_contexts s uid = Some ctx \<and> waiting_for_file ctx
      \<and> fst (handle_document e doc uid s) = None \<longrightarrow>
      user_contexts (snd (handle_document e doc uid s)) uid
        = (if upload_rejected e doc uid s then Some ctx else None))
   \<and> user_contexts (snd (search_cards e (p # rest) uid s)) uid
       = Some \<lparr>search_prefix = p, waiting_for_file = True\<rparr>
   \<and> (B \<noteq> uid \<longrightarrow> user_contexts (snd (search_cards e args uid s)) B = user_contexts s B)
   \<and> user_contexts (snd (search_cards e [] uid s)) = user_contexts s"
  using upload_clears_pending_unless_rejected [of s uid ctx e doc]
    search_cards_overwrites [of e p rest uid s] search_cards_frame [of B uid e args s]
    search_cards_no_argument [of e uid s]
  by blast

theorem pending_request_lifecycle_witness:
  "user_contexts
       \<lparr>user_contexts = [7 \<mapsto> \<lparr>search_prefix = str ''4000'', waiting_for_file = True\<rparr>,
                          8 \<mapsto> \<lparr>search_prefix = str ''5000'', waiting_for_file = True\<rparr>],
        files = (\<lambda>_. Inl FileNotFoundError), sent = []\<rparr> 7
     = Some \<lparr>search_prefix = str ''4000'', waiting_for_file = True\<rparr>
   \<and> waiting_for_file \<lparr>search_prefix = str ''4000'', waiting_for_file = True\<rparr>
   \<and> fst (handle_document
       \<lparr>raises = (\<lambda>_. None),
        downloaded = (\<lambda>_. Inr (str ''4000111'' @ [LF] @ str ''5000333'' @ [LF])),
        linesep = [LF]\<rparr>
       \<lparr>file_name = Some (str ''cards.txt''), file_size = Some 16, file_id = str ''f1''\<rparr>
       7
       \<lparr>user_contexts = [7 \<mapsto> \<lparr>search_prefix = str ''4000'', waiting_for_file = True\<rparr>,
                          8 \<mapsto> \<lparr>search_prefix = str ''5000'', waiting_for_file = True\<rparr>],
        files = (\<lambda>_. Inl FileNotFoundError), sent = []\<rparr>) = None
   \<and> \<not> upload_rejected
       \<lparr>raises = (\<lambda>_. None),
        downloaded = (\<lambda>_. Inr (str ''4000111'' @ [LF] @ str ''5000333'' @ [LF])),
        linesep = [LF]\<rparr>
       \<lparr>file_name = Some (str ''cards.txt''), file_size = Some 16, file_id = str ''f1''\<rparr>
       7
       \<lparr>user_contexts = [7 \<mapsto> \<lparr>search_prefix = str ''4000'', waiting_for_file = True\<rparr>,
                          8 \<mapsto> \<lparr>search_prefix = str ''5000'', waiting_for_file = True\<rparr>],
        files = (\<lambda>_. Inl FileNotFoundError), sent = []\<rparr>
   \<and> user_contexts (snd (handle_document
       \<lparr>raises = (\<lambda>_. None),
        downloaded = (\<lambda>_. Inr (str ''4000111'' @ [LF] @ str ''5000333'' @ [LF])),
        linesep = [LF]\<rparr>
       \<lparr>file_name = Some (str ''cards.txt''), file_size = Some 16, file_id = str ''f1''\<rparr>
       7
       \<lparr>user_contexts = [7 \<mapsto> \<lparr>search_prefix = str ''4000'', waiting_for_file = True\<rparr>,
                          8 \<mapsto> \<lparr>search_prefix = str ''5000'', waiting_for_file = True\<rparr>],
        files = (\<lambda>_. Inl FileNotFoundError), sent = []\<rparr>)) 7 = None
   \<and> (8 :: user_id) \<noteq> 7
   \<and> user_contexts (snd (search_cards
       \<lparr>raises = (\<lambda>_. None),
        downloaded = (\<lambda>_. Inr (str ''4000111'' @ [LF] @ str ''5000333'' @ [LF])),
        linesep = [LF]\<rparr> [str ''4111''] 7
       \<lparr>user_contexts = [7 \<mapsto> \<lparr>search_prefix = str ''4000'', waiting_for_file = True\<rparr>,
                          8 \<mapsto> \<lparr>search_prefix = str ''5000'', waiting_for_file = True\<rparr>],
        files = (\<lambda>_. Inl FileNotFoundError), sent = []\<rparr>)) 8
     = Some \<lparr>search_prefix = str ''5000'', waiting_for_file = True\<rparr>"
proof -
  let ?e = "\<lparr>raises = (\<lambda>_. None),
        downloaded = (\<lambda>_. Inr (str ''4000111'' @ [LF] @ str ''5000333'' @ [LF])),
        linesep = [LF]\<rparr>"
  let ?doc = "\<lparr>file_name = Some (str ''cards.txt''), file_size = Some 16, file_id = str ''f1''\<rparr>"
  let ?s = "\<lparr>user_contexts = [7 \<mapsto> \<lparr>search_prefix = str ''4000'', waiting_for_file = True\<rparr>,
                          8 \<mapsto> \<lparr>search_prefix = str ''5000'', waiting_for_file = True\<rparr>],
        files = (\<lambda>_. Inl FileNotFoundError), sent = []\<rparr>"
  let ?ctx = "\<lparr>search_prefix = str ''4000'', waiting_for_file = True\<rparr>"
  have ctx: "user_contexts ?s 7 = Some ?ctx"
    by simp
  have waiting: "waiting_for_file ?ctx"
    by simp
  have returns: "fst (handle_document ?e ?doc 7 ?s) = None"
    by (simp add: handler_defs)
  have accepted: "\<not> upload_rejected ?e ?doc 7 ?s"
    by (simp add: upload_rejected_def rejected_in_try_def handler_defs)
  have ne: "(8 :: user_id) \<noteq> 7"
    by simp
  note inst = pending_request_lifecycle
    [of ?s 7 ?ctx ?e ?doc "str ''4111''" "[]" 8 "[str ''4111'']"]
  from inst ctx waiting returns accepted
  have "user_contexts (snd (handle_document ?e ?doc 7 ?s)) 7 = None"
    by presburger
  moreover from inst ne
  have "user_contexts (snd (search_cards ?e [str ''4111''] 7 ?s)) 8 = user_contexts ?s 8"
    by blast
  then have "user_contexts (snd (search_cards ?e [str ''4111''] 7 ?s)) 8
      = Some \<lparr>search_prefix = str ''5000'', waiting_for_file = True\<rparr>"
    by simp
  ultimately show ?thesis
    using ctx waiting returns accepted ne by blast
qed

lemma handle_document_try_empty:
  assumes "file_size doc = Some n" and "\<not> n > 10 * 1024 * 1024"
    and "raises e GetFile = None" and "raises e DownloadToDrive = None"
    and "raises e EditEmpty = None"
    and "read_card_numbers_from_file
           ((files s)(temp_cards_name uid := downloaded e (file_id doc)))
           (temp_cards_name uid) = Inr []"
  shows "handle_document_try e doc uid s
         = (None, notify EmptyFile
                    (store_file (temp_cards_name uid) (downloaded e (file_id doc)) s))"
  using assms by (simp add: handle_document_try_def call_def andthen_def Let_def)

text \<open>
  C3. The claim that parsing an empty payload raises an error does not hold for the
  code: for a file that holds no character the function returns the empty list.
\<close>

theorem empty_input_error_counterexample:
  "read_card_numbers_from_file
     ((\<lambda>_. Inl FileNotFoundError)(str ''temp_cards_7.txt'' := Inr []))
     (str ''temp_cards_7.txt'') = Inr []"
  by (simp add: read_card_numbers_from_file_def read_text_def splitlines_def)

text \<open>
  C3, as amended. \<open>read_card_numbers_from_file\<close> raises no error for an input without
  records: it raises exactly when opening or reading the file raises something other
  than \<^verbatim>\<open>FileNotFoundError\<close>. For a text whose lines are all blank, in particular the
  empty text, it returns the empty list, and it returns the empty list for a missing
  file as well. It is the caller that reports the empty list: when \<open>handle_document\<close>
  has downloaded the file and reads no record from it, it sends the message that the
  file is empty and returns.
\<close>

theorem parse_returns_empty_list:
  "(read_card_numbers_from_file fs path = Inl x
      \<longleftrightarrow> fs path = Inl x \<and> x \<noteq> FileNotFoundError)
   \<and> (fs path = Inr raw \<longrightarrow>
        (read_card_numbers_from_file fs path = Inr []
         \<longleftrightarrow> (\<forall>l \<in> set (splitlines (universal_newlines raw)). strip l = [])))
   \<and> (fs path = Inr [] \<longrightarrow> read_card_numbers_from_file fs path = Inr [])
   \<and> (fs path = Inl FileNotFoundError \<longrightarrow> read_card_numbers_from_file fs path = Inr [])
   \<and> (file_size doc = Some n \<and> \<not> n > 10 * 1024 * 1024
        \<and> raises e GetFile = None \<and> raises e DownloadToDrive = None
        \<and> raises e EditEmpty = None
        \<and> read_card_numbers_from_file
             ((files s)(temp_cards_name uid := downloaded e (file_id doc)))
             (temp_cards_name uid) = Inr [] \<longrightarrow>
        handle_document_try e doc uid s
          = (None, notify EmptyFile
                     (store_file (temp_cards_name uid) (downloaded e (file_id doc)) s)))"
proof (intro conjI impI)
  show "read_card_numbers_from_file fs path = Inl x
      \<longleftrightarrow> fs path = Inl x \<and> x \<noteq> FileNotFoundError"
    by (rule read_card_numbers_from_file_raises)
  show "read_card_numbers_from_file fs path = Inr []
         \<longleftrightarrow> (\<forall>l \<in> set (splitlines (universal_newlines raw)). strip l = [])"
    if "fs path = Inr raw"
    using that by (rule read_card_numbers_from_file_empty_iff)
  show "read_card_numbers_from_file fs path = Inr []" if "fs path = Inr []"
    using that by (simp add: read_card_numbers_from_file_text splitlines_def)
  show "read_card_numbers_from_file fs path = Inr []" if "fs path = Inl FileNotFoundError"
    using that by (rule read_card_numbers_from_file_missing)
  show "handle_document_try e doc uid s
          = (None, notify EmptyFile
                     (store_file (temp_cards_name uid) (downloaded e (file_id doc)) s))"
    if "file_size doc = Some n \<and> \<not> n > 10 * 1024 * 1024
        \<and> raises e GetFile = None \<and> raises e DownloadToDrive = None
        \<and> raises e EditEmpty = None
        \<and> read_card_numbers_from_file
             ((files s)(temp_cards_name uid := downloaded e (file_id doc)))
             (temp_cards_name uid) = Inr []"
    using that by (simp add: handle_document_try_empty)
qed


theorem parse_returns_empty_list_witness:
  "((\<lambda>_. Inl FileNotFoundError)(str ''temp_cards_7.txt'' := Inr [])) (str ''temp_cards_7.txt'')
     = Inr []
   \<and> read_card_numbers_from_file
        ((\<lambda>_. Inl FileNotFoundError)(str ''temp_cards_7.txt'' := Inr []))
        (str ''temp_cards_7.txt'') = Inr []
   \<and> (\<lambda>_. Inl FileNotFoundError) (str ''card_numbers.txt'') = Inl FileNotFoundError
   \<and> read_card_numbers_from_file (\<lambda>_. Inl FileNotFoundError) (str ''card_numbers.txt'')
       = Inr []
   \<and> sent (snd (handle_document_try
       \<lparr>raises = (\<lambda>_. None), downloaded = (\<lambda>_. Inr [LF]), linesep = [LF]\<rparr>
       \<lparr>file_name = Some (str ''cards.txt''), file_size = Some 1, file_id = str ''f1''\<rparr>
       7
       \<lparr>user_contexts = [7 \<mapsto> \<lparr>search_prefix = str ''4000'', waiting_for_file = True\<rparr>],
        files = (\<lambda>_. Inl FileNotFoundError), sent = []\<rparr>)) = [EmptyFile]"
proof -
  let ?path = "str ''temp_cards_7.txt''"
  let ?fs = "(\<lambda>_. Inl FileNotFoundError)(?path := Inr []) :: filesystem"
  let ?none = "(\<lambda>_. Inl FileNotFoundError) :: filesystem"
  let ?e = "\<lparr>raises = (\<lambda>_. None), downloaded = (\<lambda>_. Inr [LF]), linesep = [LF]\<rparr>"
  let ?doc = "\<lparr>file_name = Some (str ''cards.txt''), file_size = Some 1, file_id = str ''f1''\<rparr>"
  let ?s = "\<lparr>user_contexts = [7 \<mapsto> \<lparr>search_prefix = str ''4000'', waiting_for_file = True\<rparr>],
        files = (\<lambda>_. Inl FileNotFoundError), sent = []\<rparr>"
  note inst = parse_returns_empty_list [of ?fs ?path _ "[]" ?doc 1 ?e ?s 7]
  note inst' = parse_returns_empty_list [of ?none "str ''card_numbers.txt''"]
  have h1: "?fs ?path = Inr []"
    by simp
  with inst have r1: "read_card_numbers_from_file ?fs ?path = Inr []"
    by blast
  have h2: "?none (str ''card_numbers.txt'') = Inl FileNotFoundError"
    by simp
  with inst' have r3: "read_card_numbers_from_file ?none (str ''card_numbers.txt'') = Inr []"
    by blast
  have h3: "file_size ?doc = Some 1 \<and> \<not> (1 :: int) > 10 * 1024 * 1024
        \<and> raises ?e GetFile = None \<and> raises ?e DownloadToDrive = None
        \<and> raises ?e EditEmpty = None
        \<and> read_card_numbers_from_file
             ((files ?s)(temp_cards_name 7 := downloaded ?e (file_id ?doc)))
             (temp_cards_name 7) = Inr []"
    by (simp add: read_card_numbers_from_file_def read_text_def splitlines_def strip_def
        is_space_def is_linebreak_def)
  with inst have "handle_document_try ?e ?doc 7 ?s
          = (None, notify EmptyFile
                     (store_file (temp_cards_name 7) (downloaded ?e (file_id ?doc)) ?s))"
    by blast
  then have r4: "sent (snd (handle_document_try ?e ?doc 7 ?s)) = [EmptyFile]"
    by (simp add: notify_def store_file_def)
  from h1 r1 h2 r3 r4 show ?thesis
    by simp
qed

end
